theory Spec2Isabelle
  imports Complex_Main "HOL-Library.AList"
begin

section \<open>The attendance log\<close>

text \<open>
  The program keeps one process-wide list \<^verbatim>\<open>attendance_log\<close> of dictionaries, each with
  the keys \<^verbatim>\<open>event\<close>, \<^verbatim>\<open>meeting_id\<close>, \<^verbatim>\<open>user_id\<close>, \<^verbatim>\<open>user_name\<close>, \<^verbatim>\<open>join_time\<close>,
  \<^verbatim>\<open>leave_time\<close> and \<^verbatim>\<open>timestamp\<close>. An entry is a record; \<^verbatim>\<open>leave_time\<close> is \<^verbatim>\<open>None\<close>
  until a leave is matched, so it is an option. The list is passed to every operation
  and returned updated.
\<close>

record entry =
  event :: string
  meeting_id :: string
  user_id :: string
  user_name :: string
  join_time :: string
  leave_time :: "string option"
  timestamp :: string

type_synonym attendance_log = "entry list"

text \<open>Exceptions that can leave a function of the program.\<close>

datatype py_error = TypeError

text \<open>
  The functions print a line and return nothing; which line is printed is the only
  result a caller can observe, so the model returns it as a value. \<open>LeaveLogged d\<close> is the
  pair of lines after a matched leave, with the duration \<open>d\<close> printed there;
  \<open>NoMatchingJoin\<close> is the warning printed when the scan finds nothing.
\<close>

datatype notice = JoinLogged | LeaveLogged rat | NoMatchingJoin

subsection \<open>\<^verbatim>\<open>log_join\<close>\<close>

text \<open>\<open>now\<close> stands for \<^verbatim>\<open>datetime.now().isoformat()\<close>, read from the clock.\<close>

definition log_join ::
  "string \<Rightarrow> string \<Rightarrow> string \<Rightarrow> string \<Rightarrow> string \<Rightarrow> attendance_log \<Rightarrow> notice \<times> attendance_log"
where
  "log_join now mid uid uname jt alog =
     (let log_entry = \<lparr>event = ''joined'', meeting_id = mid, user_id = uid,
                        user_name = uname, join_time = jt, leave_time = None,
                        timestamp = now\<rparr>
      in (JoinLogged, alog @ [log_entry]))"

subsection \<open>\<^verbatim>\<open>log_leave\<close>\<close>

text \<open>
  The test of the loop body: a \<^verbatim>\<open>joined\<close> entry of this meeting and user whose
  \<^verbatim>\<open>leave_time\<close> is still \<^verbatim>\<open>None\<close>.
\<close>

definition open_match :: "string \<Rightarrow> string \<Rightarrow> entry \<Rightarrow> bool" where
  "open_match mid uid e \<longleftrightarrow>
     event e = ''joined'' \<and> meeting_id e = mid \<and> user_id e = uid \<and> leave_time e = None"

text \<open>The two assignments of the loop body.\<close>

definition close_entry :: "string \<Rightarrow> entry \<Rightarrow> entry" where
  "close_entry lt e = e\<lparr>leave_time := Some lt, event := ''left''\<rparr>"

text \<open>
  The loop \<^verbatim>\<open>for entry in reversed(attendance_log)\<close>, on the reversed list: the first
  entry that passes the test is updated in place and the loop returns. The result is the
  entry as it was found and the reversed list after the update, or \<open>None\<close> when the loop
  runs to its end.
\<close>

fun log_leave_scan ::
  "string \<Rightarrow> string \<Rightarrow> string \<Rightarrow> entry list \<Rightarrow> (entry \<times> entry list) option"
where
  "log_leave_scan mid uid lt [] = None"
| "log_leave_scan mid uid lt (e # es) =
     (if open_match mid uid e then Some (e, close_entry lt e # es)
      else (case log_leave_scan mid uid lt es of
              None \<Rightarrow> None
            | Some (found, es') \<Rightarrow> Some (found, e # es')))"

section \<open>Timestamps\<close>

text \<open>
  \<^verbatim>\<open>calculate_duration\<close> calls \<^verbatim>\<open>datetime.fromisoformat\<close> of the Python library. The
  model below follows the library's documented grammar (Python 3.7 to 3.10)
  \<^verbatim>\<open>YYYY-MM-DD[*HH[:MM[:SS[.fff[fff]]]][+HH:MM[:SS[.ffffff]]]]\<close>, where \<^verbatim>\<open>*\<close> is any one
  character, and the range checks of the \<^verbatim>\<open>datetime\<close> and \<^verbatim>\<open>timezone\<close> constructors.
  \<open>None\<close> is the library's \<^verbatim>\<open>ValueError\<close>.
\<close>

definition digit_val :: "char \<Rightarrow> int option" where
  "digit_val c =
     (let n = (of_char c :: nat)
      in if 48 \<le> n \<and> n \<le> 57 then Some (int n - 48) else None)"

fun digits_acc :: "int \<Rightarrow> string \<Rightarrow> int option" where
  "digits_acc a [] = Some a"
| "digits_acc a (c # cs) =
     (case digit_val c of None \<Rightarrow> None | Some d \<Rightarrow> digits_acc (10 * a + d) cs)"

text \<open>A field of exactly \<open>n\<close> decimal digits.\<close>

definition parse_digits :: "nat \<Rightarrow> string \<Rightarrow> int option" where
  "parse_digits n s = (if length s = n then digits_acc 0 s else None)"

definition is_leap :: "int \<Rightarrow> bool" where
  "is_leap y \<longleftrightarrow> y mod 4 = 0 \<and> (y mod 100 \<noteq> 0 \<or> y mod 400 = 0)"

definition days_in_month :: "int \<Rightarrow> int \<Rightarrow> int" where
  "days_in_month y m =
     (if m = 2 then (if is_leap y then 29 else 28)
      else if m = 4 \<or> m = 6 \<or> m = 9 \<or> m = 11 then 30 else 31)"

definition days_before_year :: "int \<Rightarrow> int" where
  "days_before_year year =
     (let y = year - 1 in y * 365 + y div 4 - y div 100 + y div 400)"

definition days_before_month :: "int \<Rightarrow> int \<Rightarrow> int" where
  "days_before_month y m =
     [0, 31, 59, 90, 120, 151, 181, 212, 243, 273, 304, 334] ! nat (m - 1)
       + (if 2 < m \<and> is_leap y then 1 else 0)"

definition ymd2ord :: "int \<Rightarrow> int \<Rightarrow> int \<Rightarrow> int" where
  "ymd2ord y m d = days_before_year y + days_before_month y m + d"

text \<open>
  A \<^verbatim>\<open>datetime\<close> value: its wall-clock fields as microseconds since 0001-01-01T00:00:00,
  and the UTC offset in microseconds when the value is offset-aware (\<open>None\<close> when naive).
\<close>

record datetime =
  wall_us :: int
  utcoffset_us :: "int option"

text \<open>\<^verbatim>\<open>HH[:MM[:SS[.fff[fff]]]]\<close>: hour, minute, second, microsecond.\<close>

definition parse_hh_mm_ss_ff :: "string \<Rightarrow> (int \<times> int \<times> int \<times> int) option" where
  "parse_hh_mm_ss_ff t =
     (case parse_digits 2 (take 2 t) of
        None \<Rightarrow> None
      | Some h \<Rightarrow>
          if length t = 2 then Some (h, 0, 0, 0)
          else if t ! 2 \<noteq> CHR '':'' then None
          else (case parse_digits 2 (take 2 (drop 3 t)) of
                  None \<Rightarrow> None
                | Some mi \<Rightarrow>
                    if length t = 5 then Some (h, mi, 0, 0)
                    else if t ! 5 \<noteq> CHR '':'' then None
                    else (case parse_digits 2 (take 2 (drop 6 t)) of
                            None \<Rightarrow> None
                          | Some sec \<Rightarrow>
                              if length t = 8 then Some (h, mi, sec, 0)
                              else if t ! 8 \<noteq> CHR ''.'' then None
                              else (case parse_digits 3 (drop 9 t) of
                                      Some ms \<Rightarrow> Some (h, mi, sec, ms * 1000)
                                    | None \<Rightarrow>
                                        (case parse_digits 6 (drop 9 t) of
                                           Some us \<Rightarrow> Some (h, mi, sec, us)
                                         | None \<Rightarrow> None)))))"

text \<open>\<^verbatim>\<open>YYYY-MM-DD\<close>, on the first ten characters.\<close>

definition parse_isoformat_date :: "string \<Rightarrow> (int \<times> int \<times> int) option" where
  "parse_isoformat_date d =
     (if length d \<noteq> 10 \<or> d ! 4 \<noteq> CHR ''-'' \<or> d ! 7 \<noteq> CHR ''-'' then None
      else (case (parse_digits 4 (take 4 d), parse_digits 2 (take 2 (drop 5 d)),
                  parse_digits 2 (drop 8 d)) of
              (Some y, Some m, Some dd) \<Rightarrow> Some (y, m, dd)
            | _ \<Rightarrow> None))"

text \<open>
  The time of day with its optional offset. The offset starts at the first \<^verbatim>\<open>+\<close> or
  \<^verbatim>\<open>-\<close>; its text has 5, 8 or 15 characters; the \<^verbatim>\<open>timezone\<close> constructor accepts it
  only strictly between minus and plus 24 hours.
\<close>

definition tz_start :: "char \<Rightarrow> bool" where
  "tz_start c \<longleftrightarrow> c = CHR ''+'' \<or> c = CHR ''-''"

definition parse_isoformat_time :: "string \<Rightarrow> ((int \<times> int \<times> int \<times> int) \<times> int option) option" where
  "parse_isoformat_time t =
     (case parse_hh_mm_ss_ff (takeWhile (\<lambda>c. \<not> tz_start c) t) of
        None \<Rightarrow> None
      | Some hmsf \<Rightarrow>
          (case dropWhile (\<lambda>c. \<not> tz_start c) t of
             [] \<Rightarrow> Some (hmsf, None)
           | sign_ch # tz \<Rightarrow>
               if length tz \<noteq> 5 \<and> length tz \<noteq> 8 \<and> length tz \<noteq> 15 then None
               else (case parse_hh_mm_ss_ff tz of
                       None \<Rightarrow> None
                     | Some (h, mi, sec, us) \<Rightarrow>
                         (let off = (if sign_ch = CHR ''-'' then - 1 else 1)
                                      * (((h * 3600 + mi * 60 + sec) * 1000000) + us)
                          in if - 86400000000 < off \<and> off < 86400000000
                             then Some (hmsf, Some off) else None))))"

definition fromisoformat :: "string \<Rightarrow> datetime option" where
  "fromisoformat s =
     (case parse_isoformat_date (take 10 s) of
        None \<Rightarrow> None
      | Some (y, m, d) \<Rightarrow>
          (case (if drop 11 s = [] then Some ((0, 0, 0, 0), None)
                 else parse_isoformat_time (drop 11 s)) of
             None \<Rightarrow> None
           | Some ((h, mi, sec, us), off) \<Rightarrow>
               if 1 \<le> y \<and> y \<le> 9999 \<and> 1 \<le> m \<and> m \<le> 12
                  \<and> 1 \<le> d \<and> d \<le> days_in_month y m
                  \<and> h < 24 \<and> mi < 60 \<and> sec < 60
               then Some \<lparr>wall_us = (((ymd2ord y m d - 1) * 86400
                                         + h * 3600 + mi * 60 + sec) * 1000000) + us,
                           utcoffset_us = off\<rparr>
               else None))"

text \<open>
  \<^verbatim>\<open>l - j\<close> on two \<^verbatim>\<open>datetime\<close> values, in microseconds: two naive values subtract their
  wall-clock fields, two aware values subtract after each is moved to UTC, and one of
  each kind raises \<^verbatim>\<open>TypeError\<close>.
\<close>

definition datetime_sub :: "datetime \<Rightarrow> datetime \<Rightarrow> py_error + int" where
  "datetime_sub l j =
     (case (utcoffset_us l, utcoffset_us j) of
        (None, None) \<Rightarrow> Inr (wall_us l - wall_us j)
      | (Some lo, Some jo) \<Rightarrow> Inr ((wall_us l - lo) - (wall_us j - jo))
      | _ \<Rightarrow> Inl TypeError)"

subsection \<open>\<^verbatim>\<open>calculate_duration\<close>\<close>

text \<open>\<^verbatim>\<open>s.replace("Z", "+00:00")\<close>: every \<^verbatim>\<open>Z\<close> of the string is replaced.\<close>

definition replace_Z :: "string \<Rightarrow> string" where
  "replace_Z s = concat (map (\<lambda>c. if c = CHR ''Z'' then ''+00:00'' else [c]) s)"

text \<open>
  The \<^verbatim>\<open>except (ValueError, AttributeError)\<close> clause turns a failed parse into \<open>0.0\<close>;
  the \<^verbatim>\<open>TypeError\<close> of the subtraction is not listed there and leaves the function.
  The result is the exact quotient, a rational number; the Python value is the
  double nearest to it.
\<close>

definition calculate_duration :: "string \<Rightarrow> string \<Rightarrow> py_error + rat" where
  "calculate_duration jt lt =
     (case fromisoformat (replace_Z jt) of
        None \<Rightarrow> Inr 0
      | Some j \<Rightarrow>
          (case fromisoformat (replace_Z lt) of
             None \<Rightarrow> Inr 0
           | Some l \<Rightarrow>
               (case datetime_sub l j of
                  Inl err \<Rightarrow> Inl err
                | Inr us \<Rightarrow> Inr (of_int us / 1000000 / 60))))"

text \<open>
  \<^verbatim>\<open>log_leave\<close> itself. The entry is updated before \<^verbatim>\<open>calculate_duration\<close> is called
  for the printed line, so the update stays in the list when that call raises.
\<close>

definition log_leave ::
  "string \<Rightarrow> string \<Rightarrow> string \<Rightarrow> attendance_log \<Rightarrow> (py_error + notice) \<times> attendance_log"
where
  "log_leave mid uid lt alog =
     (case log_leave_scan mid uid lt (rev alog) of
        None \<Rightarrow> (Inr NoMatchingJoin, alog)
      | Some (found, es') \<Rightarrow>
          (case calculate_duration (join_time found) lt of
             Inl err \<Rightarrow> (Inl err, rev es')
           | Inr d \<Rightarrow> (Inr (LeaveLogged d), rev es')))"

section \<open>Aggregation and the read views\<close>

text \<open>
  One value of the \<^verbatim>\<open>durations\<close> dictionary. The dictionary is an association list in
  insertion order: \<open>AList.update\<close> replaces the value of a key that is present where it
  stands and puts a new key at the end, as a Python \<^verbatim>\<open>dict\<close> does.
\<close>

record bucket =
  b_user_name :: string
  total_minutes :: rat
  sessions :: int

text \<open>
  The filter of the loop, \<^verbatim>\<open>entry["join_time"] and entry["leave_time"]\<close>: a string counts
  as true when it is not empty, \<^verbatim>\<open>None\<close> as false.
\<close>

definition completed :: "string \<Rightarrow> entry \<Rightarrow> bool" where
  "completed mid e \<longleftrightarrow>
     meeting_id e = mid \<and> join_time e \<noteq> []
       \<and> (case leave_time e of None \<Rightarrow> False | Some lt \<Rightarrow> lt \<noteq> [])"

text \<open>
  \<^verbatim>\<open>calculate_duration(entry["join_time"], entry["leave_time"])\<close> on an entry; the loop
  calls it only on entries that pass the filter, where \<^verbatim>\<open>leave_time\<close> is a string.
\<close>

definition entry_duration :: "entry \<Rightarrow> py_error + rat" where
  "entry_duration e =
     calculate_duration (join_time e) (case leave_time e of Some lt \<Rightarrow> lt | None \<Rightarrow> [])"

fun calculate_durations_loop ::
  "string \<Rightarrow> entry list \<Rightarrow> (string \<times> bucket) list \<Rightarrow> py_error + (string \<times> bucket) list"
where
  "calculate_durations_loop mid [] durations = Inr durations"
| "calculate_durations_loop mid (e # es) durations =
     (if completed mid e then
        (case entry_duration e of
           Inl err \<Rightarrow> Inl err
         | Inr duration \<Rightarrow>
             (let b = (case map_of durations (user_id e) of
                         None \<Rightarrow> \<lparr>b_user_name = user_name e, total_minutes = 0, sessions = 0\<rparr>
                       | Some b \<Rightarrow> b)
              in calculate_durations_loop mid es
                   (AList.update (user_id e)
                      (b\<lparr>total_minutes := total_minutes b + duration,
                         sessions := sessions b + 1\<rparr>) durations)))
      else calculate_durations_loop mid es durations)"

definition calculate_durations ::
  "string \<Rightarrow> attendance_log \<Rightarrow> py_error + (string \<times> bucket) list"
where
  "calculate_durations mid alog = calculate_durations_loop mid alog []"

record report_response =
  r_meeting_id :: string
  attendance :: "(string \<times> bucket) list"
  total_participants :: int

definition report :: "string \<Rightarrow> attendance_log \<Rightarrow> py_error + report_response" where
  "report mid alog =
     (case calculate_durations mid alog of
        Inl err \<Rightarrow> Inl err
      | Inr durations \<Rightarrow>
          Inr \<lparr>r_meeting_id = mid, attendance = durations,
               total_participants = int (length durations)\<rparr>)"

text \<open>
  \<^verbatim>\<open>get_logs\<close>: with a non-empty \<^verbatim>\<open>meeting_id\<close> the entries of that meeting and the
  filter; otherwise (\<^verbatim>\<open>None\<close> or the empty string) the whole list and its length.
\<close>

datatype logs_response =
    FilteredLogs "entry list" string
  | AllLogs "entry list" int

definition get_logs :: "string option \<Rightarrow> attendance_log \<Rightarrow> logs_response" where
  "get_logs mid alog =
     (case mid of
        Some m \<Rightarrow>
          if m \<noteq> [] then FilteredLogs (filter (\<lambda>e. meeting_id e = m) alog) m
          else AllLogs alog (int (length alog))
      | None \<Rightarrow> AllLogs alog (int (length alog)))"

text \<open>\<^verbatim>\<open>str(count)\<close> for a count, which is never negative.\<close>

definition digit_char :: "nat \<Rightarrow> char" where
  "digit_char d = ''0123456789'' ! d"

fun str_nat :: "nat \<Rightarrow> string" where
  "str_nat n = (if n < 10 then [digit_char n] else str_nat (n div 10) @ [digit_char (n mod 10)])"

text \<open>
  \<^verbatim>\<open>clear_logs\<close> returns the dictionary \<^verbatim>\<open>{"message": ..., "remaining": 0}\<close> and makes the
  list empty. The returned value is kept as Python has it, a dictionary of a string and
  an integer, so that it can be compared with a plain integer.
\<close>

datatype py_value =
    PyInt int
  | PyStr string
  | PyDict "(string \<times> py_value) list"

definition clear_logs :: "attendance_log \<Rightarrow> py_value \<times> attendance_log" where
  "clear_logs alog =
     (let count = length alog
      in (PyDict [(''message'', PyStr (''Cleared '' @ str_nat count @ '' log entries'')),
                  (''remaining'', PyInt 0)], []))"

section \<open>Sequences of calls\<close>

text \<open>
  The calls that reach the list other than \<^verbatim>\<open>clear_logs\<close>, with the list each one
  leaves behind. The two read views return a response and do not touch the list.
\<close>

datatype call =
    Join string string string string string
  | Leave string string string
  | Report string
  | GetLogs "string option"

fun perform :: "call \<Rightarrow> attendance_log \<Rightarrow> attendance_log" where
  "perform (Join now mid uid uname jt) alog = snd (log_join now mid uid uname jt alog)"
| "perform (Leave mid uid lt) alog = snd (log_leave mid uid lt alog)"
| "perform (Report mid) alog = alog"
| "perform (GetLogs mid) alog = alog"

fun perform_all :: "call list \<Rightarrow> attendance_log \<Rightarrow> attendance_log" where
  "perform_all [] alog = alog"
| "perform_all (c # cs) alog = perform_all cs (perform c alog)"

section \<open>The normalisation as the specification words it\<close>

text \<open>
  The specification describes the step before parsing as normalising a trailing
  literal \<^verbatim>\<open>Z\<close> to an explicit UTC offset. This is that reading, to be compared with
  \<open>replace_Z\<close>, which is what the code does.
\<close>

definition normalize_trailing_Z :: "string \<Rightarrow> string" where
  "normalize_trailing_Z s =
     (if s \<noteq> [] \<and> last s = CHR ''Z'' then butlast s @ ''+00:00'' else s)"

section \<open>Properties of \<^verbatim>\<open>log_leave\<close>\<close>

lemma log_leave_scan_None:
  "log_leave_scan mid uid lt es = None \<longleftrightarrow> (\<forall>e\<in>set es. \<not> open_match mid uid e)"
  by (induction es) (auto split: option.splits)

lemma log_leave_scan_first:
  "\<forall>x\<in>set pre. \<not> open_match mid uid x \<Longrightarrow> open_match mid uid e \<Longrightarrow>
   log_leave_scan mid uid lt (pre @ e # post) = Some (e, pre @ close_entry lt e # post)"
  by (induction pre) auto

lemma log_leave_scan_Some:
  assumes "log_leave_scan mid uid lt es = Some (e, es')"
  shows "\<exists>pre post. es = pre @ e # post \<and> (\<forall>x\<in>set pre. \<not> open_match mid uid x)
           \<and> open_match mid uid e \<and> es' = pre @ close_entry lt e # post"
  using assms
proof (induction es arbitrary: es')
  case Nil
  then show ?case by simp
next
  case (Cons x xs)
  show ?case
  proof (cases "open_match mid uid x")
    case True
    with Cons.prems have "e = x" "es' = close_entry lt x # xs" by auto
    with True show ?thesis by (intro exI[of _ "[]"] exI[of _ xs]) simp
  next
    case False
    with Cons.prems obtain ys where ys: "log_leave_scan mid uid lt xs = Some (e, ys)" "es' = x # ys"
      by (auto split: option.splits)
    from Cons.IH[OF ys(1)] obtain pre post where
      "xs = pre @ e # post" "\<forall>x\<in>set pre. \<not> open_match mid uid x" "open_match mid uid e"
      "ys = pre @ close_entry lt e # post" by blast
    with False ys(2) show ?thesis
      by (intro exI[of _ "x # pre"] exI[of _ post]) simp
  qed
qed

lemma snd_log_leave:
  "snd (log_leave mid uid lt alog) =
     (case log_leave_scan mid uid lt (rev alog) of None \<Rightarrow> alog | Some (found, es') \<Rightarrow> rev es')"
  by (simp add: log_leave_def split: option.splits sum.splits prod.splits)



text \<open>
  Claim C3. When the list holds two open entries of the same meeting and user, and no
  open entry of that pair comes after the second, \<^verbatim>\<open>log_leave\<close> closes the second, the
  one appended later: its \<^verbatim>\<open>leave_time\<close> is set and its \<^verbatim>\<open>event\<close> becomes \<^verbatim>\<open>left\<close>. The
  first stays as it was, and so does every other entry.
\<close>

theorem log_leave_closes_latest:
  assumes "open_match mid uid e1" and "open_match mid uid e2"
    and "\<forall>x\<in>set c. \<not> open_match mid uid x"
  shows "snd (log_leave mid uid lt (a @ e1 # b @ e2 # c)) =
           a @ e1 # b @ e2\<lparr>leave_time := Some lt, event := ''left''\<rparr> # c"
proof -
  have "rev (a @ e1 # b @ e2 # c) = rev c @ e2 # (rev b @ e1 # rev a)" by simp
  moreover have "\<forall>x\<in>set (rev c). \<not> open_match mid uid x" using assms(3) by simp
  ultimately have "log_leave_scan mid uid lt (rev (a @ e1 # b @ e2 # c)) =
      Some (e2, rev c @ close_entry lt e2 # (rev b @ e1 # rev a))"
    using log_leave_scan_first[OF _ assms(2)] by metis
  then show ?thesis by (simp add: snd_log_leave close_entry_def)
qed

theorem log_leave_closes_latest_witness:
  "open_match ''M1'' ''U1''
      \<lparr>event = ''joined'', meeting_id = ''M1'', user_id = ''U1'', user_name = ''Alice'',
       join_time = ''2024-01-01T09:00:00Z'', leave_time = None, timestamp = ''t1''\<rparr>
   \<and> open_match ''M1'' ''U1''
      \<lparr>event = ''joined'', meeting_id = ''M1'', user_id = ''U1'', user_name = ''Alice'',
       join_time = ''2024-01-01T09:20:00Z'', leave_time = None, timestamp = ''t2''\<rparr>
   \<and> snd (log_leave ''M1'' ''U1'' ''2024-01-01T09:45:00Z''
        ([] @ \<lparr>event = ''joined'', meeting_id = ''M1'', user_id = ''U1'', user_name = ''Alice'',
               join_time = ''2024-01-01T09:00:00Z'', leave_time = None, timestamp = ''t1''\<rparr>
          # [] @ \<lparr>event = ''joined'', meeting_id = ''M1'', user_id = ''U1'', user_name = ''Alice'',
               join_time = ''2024-01-01T09:20:00Z'', leave_time = None, timestamp = ''t2''\<rparr>
          # [\<lparr>event = ''joined'', meeting_id = ''M1'', user_id = ''U2'', user_name = ''Bob'',
               join_time = ''2024-01-01T09:25:00Z'', leave_time = None, timestamp = ''t3''\<rparr>]))
     = [\<lparr>event = ''joined'', meeting_id = ''M1'', user_id = ''U1'', user_name = ''Alice'',
         join_time = ''2024-01-01T09:00:00Z'', leave_time = None, timestamp = ''t1''\<rparr>,
        \<lparr>event = ''left'', meeting_id = ''M1'', user_id = ''U1'', user_name = ''Alice'',
         join_time = ''2024-01-01T09:20:00Z'', leave_time = Some ''2024-01-01T09:45:00Z'',
         timestamp = ''t2''\<rparr>,
        \<lparr>event = ''joined'', meeting_id = ''M1'', user_id = ''U2'', user_name = ''Bob'',
         join_time = ''2024-01-01T09:25:00Z'', leave_time = None, timestamp = ''t3''\<rparr>]"
  (is "?H1 \<and> ?H2 \<and> ?C")
proof -
  have h1: ?H1 by (simp add: open_match_def)
  have h2: ?H2 by (simp add: open_match_def)
  have h3: "\<forall>x\<in>set [\<lparr>event = ''joined'', meeting_id = ''M1'', user_id = ''U2'',
                        user_name = ''Bob'', join_time = ''2024-01-01T09:25:00Z'',
                        leave_time = None, timestamp = ''t3''\<rparr>].
              \<not> open_match ''M1'' ''U1'' x"
    by (simp add: open_match_def)
  from log_leave_closes_latest[OF h1 h2 h3, of "''2024-01-01T09:45:00Z''" "[]" "[]"]
  have ?C by simp
  with h1 h2 show ?thesis by blast
qed

text \<open>
  Claim C10. When the list holds an open entry of the given meeting and user,
  \<^verbatim>\<open>log_leave\<close> changes the list at one index only, the last index that holds such an
  entry, and there only the fields \<^verbatim>\<open>leave_time\<close> and \<^verbatim>\<open>event\<close>: the length, the order,
  every other entry and the other fields of the matched entry are unchanged.
\<close>

theorem log_leave_frame:
  assumes "\<exists>e\<in>set alog. open_match mid uid e"
  shows "\<exists>i<length alog. open_match mid uid (alog ! i)
           \<and> (\<forall>j. i < j \<and> j < length alog \<longrightarrow> \<not> open_match mid uid (alog ! j))
           \<and> snd (log_leave mid uid lt alog) =
               alog[i := (alog ! i)\<lparr>leave_time := Some lt, event := ''left''\<rparr>]"
proof -
  from assms have "log_leave_scan mid uid lt (rev alog) \<noteq> None"
    by (simp add: log_leave_scan_None)
  then obtain e es' where sc: "log_leave_scan mid uid lt (rev alog) = Some (e, es')" by auto
  from log_leave_scan_Some[OF sc] obtain pre post where d:
    "rev alog = pre @ e # post" "\<forall>x\<in>set pre. \<not> open_match mid uid x" "open_match mid uid e"
    "es' = pre @ close_entry lt e # post" by blast
  from d(1) have al: "alog = rev post @ e # rev pre" by (metis rev_rev_ident rev_append rev.simps(2) append_Cons append_Nil append_assoc)
  let ?i = "length post"
  have 1: "?i < length alog" using al by simp
  have 2: "alog ! ?i = e" using al by (simp add: nth_append)
  have 3: "\<forall>j. ?i < j \<and> j < length alog \<longrightarrow> \<not> open_match mid uid (alog ! j)"
  proof (intro allI impI)
    fix j assume j: "?i < j \<and> j < length alog"
    then have "alog ! j = rev pre ! (j - Suc ?i)" using al by (auto simp: nth_append nth_Cons')
    moreover have "j - Suc ?i < length (rev pre)" using j al by auto
    ultimately have "alog ! j \<in> set pre" by (metis nth_mem set_rev)
    with d(2) show "\<not> open_match mid uid (alog ! j)" by blast
  qed
  have 4: "snd (log_leave mid uid lt alog) = alog[?i := (alog ! ?i)\<lparr>leave_time := Some lt, event := ''left''\<rparr>]"
    using sc d(4) al 2 by (simp add: snd_log_leave close_entry_def list_update_append)
  from 1 2 3 4 d(3) show ?thesis by blast
qed

theorem log_leave_frame_witness:
  "(\<exists>e\<in>set [\<lparr>event = ''joined'', meeting_id = ''M1'', user_id = ''U1'', user_name = ''Alice'',
                 join_time = ''2024-01-01T09:00:00Z'', leave_time = None, timestamp = ''t1''\<rparr>,
               \<lparr>event = ''joined'', meeting_id = ''M2'', user_id = ''U1'', user_name = ''Alice'',
                 join_time = ''2024-01-01T11:00:00Z'', leave_time = None, timestamp = ''t2''\<rparr>].
       open_match ''M1'' ''U1'' e)
   \<and> snd (log_leave ''M1'' ''U1'' ''2024-01-01T09:45:00Z''
         [\<lparr>event = ''joined'', meeting_id = ''M1'', user_id = ''U1'', user_name = ''Alice'',
            join_time = ''2024-01-01T09:00:00Z'', leave_time = None, timestamp = ''t1''\<rparr>,
          \<lparr>event = ''joined'', meeting_id = ''M2'', user_id = ''U1'', user_name = ''Alice'',
            join_time = ''2024-01-01T11:00:00Z'', leave_time = None, timestamp = ''t2''\<rparr>])
     = [\<lparr>event = ''left'', meeting_id = ''M1'', user_id = ''U1'', user_name = ''Alice'',
         join_time = ''2024-01-01T09:00:00Z'', leave_time = Some ''2024-01-01T09:45:00Z'',
         timestamp = ''t1''\<rparr>,
        \<lparr>event = ''joined'', meeting_id = ''M2'', user_id = ''U1'', user_name = ''Alice'',
         join_time = ''2024-01-01T11:00:00Z'', leave_time = None, timestamp = ''t2''\<rparr>]"
  (is "(\<exists>e\<in>set ?A. _) \<and> ?C")
proof -
  have h: "\<exists>e\<in>set ?A. open_match ''M1'' ''U1'' e" by (simp add: open_match_def)
  from log_leave_frame[OF h, of "''2024-01-01T09:45:00Z''"]
  obtain i where i: "i < length ?A"
    and o: "open_match ''M1'' ''U1'' (?A ! i)"
    and r: "snd (log_leave ''M1'' ''U1'' ''2024-01-01T09:45:00Z'' ?A)
              = ?A[i := (?A ! i)\<lparr>leave_time := Some ''2024-01-01T09:45:00Z'', event := ''left''\<rparr>]"
    by blast
  from i have "i = 0 \<or> i = 1" by auto
  with o have "i = 0" by (auto simp: open_match_def)
  with r have ?C by simp
  with h show ?thesis by (rule conjI)
qed

section \<open>Properties of \<^verbatim>\<open>log_join\<close> and of sequences of calls\<close>

text \<open>
  Claim C7. \<^verbatim>\<open>log_join\<close> puts exactly one new entry at the end of the list, with the
  given \<^verbatim>\<open>meeting_id\<close>, \<^verbatim>\<open>user_id\<close>, \<^verbatim>\<open>user_name\<close> and \<^verbatim>\<open>join_time\<close>, the event
  \<^verbatim>\<open>joined\<close> and no \<^verbatim>\<open>leave_time\<close>; the entries that were there before are unchanged
  and keep their places.
\<close>

theorem log_join_appends:
  "log_join now mid uid uname jt alog =
     (JoinLogged, alog @ [\<lparr>event = ''joined'', meeting_id = mid, user_id = uid,
                            user_name = uname, join_time = jt, leave_time = None,
                            timestamp = now\<rparr>])
   \<and> length (snd (log_join now mid uid uname jt alog)) = Suc (length alog)
   \<and> take (length alog) (snd (log_join now mid uid uname jt alog)) = alog
   \<and> open_match mid uid (last (snd (log_join now mid uid uname jt alog)))"
  by (simp add: log_join_def open_match_def)

lemma snd_log_leave_cases:
  "snd (log_leave mid uid lt alog) = alog
   \<or> (\<exists>i<length alog. open_match mid uid (alog ! i)
         \<and> snd (log_leave mid uid lt alog) = alog[i := close_entry lt (alog ! i)])"
proof (cases "log_leave_scan mid uid lt (rev alog)")
  case None
  then show ?thesis by (simp add: snd_log_leave)
next
  case (Some p)
  then obtain e es' where sc: "log_leave_scan mid uid lt (rev alog) = Some (e, es')"
    by (cases p) simp
  from log_leave_scan_Some[OF sc] obtain pre post where d:
    "rev alog = pre @ e # post" "open_match mid uid e" "es' = pre @ close_entry lt e # post"
    by blast
  from d(1) have "rev (rev alog) = rev (pre @ e # post)" by simp
  then have al: "alog = rev post @ e # rev pre" by simp
  have "length post < length alog" using al by simp
  moreover have "alog ! length post = e" using al by (simp add: nth_append)
  moreover have "snd (log_leave mid uid lt alog) = alog[length post := close_entry lt e]"
    using sc d(3) al by (simp add: snd_log_leave list_update_append)
  ultimately show ?thesis using d(2) by blast
qed

lemma perform_keeps_closed:
  assumes "i < length alog" and "leave_time (alog ! i) \<noteq> None"
  shows "i < length (perform c alog) \<and> perform c alog ! i = alog ! i"
proof (cases c)
  case (Join now mid uid uname jt)
  with assms(1) show ?thesis by (simp add: log_join_def nth_append)
next
  case (Leave mid uid lt)
  from snd_log_leave_cases[of mid uid lt alog] show ?thesis
  proof
    assume "snd (log_leave mid uid lt alog) = alog"
    with Leave assms(1) show ?thesis by simp
  next
    assume "\<exists>k<length alog. open_match mid uid (alog ! k)
         \<and> snd (log_leave mid uid lt alog) = alog[k := close_entry lt (alog ! k)]"
    then obtain k where k: "open_match mid uid (alog ! k)"
      "snd (log_leave mid uid lt alog) = alog[k := close_entry lt (alog ! k)]" by blast
    from k(1) assms(2) have "k \<noteq> i" by (auto simp: open_match_def)
    with k(2) Leave assms(1) show ?thesis by simp
  qed
next
  case (Report mid)
  with assms(1) show ?thesis by simp
next
  case (GetLogs mid)
  with assms(1) show ?thesis by simp
qed

text \<open>
  Claim C4. An entry whose \<^verbatim>\<open>leave_time\<close> is set stays at its index, unchanged, through
  every sequence of calls other than \<^verbatim>\<open>clear_logs\<close>: \<^verbatim>\<open>log_join\<close> only appends, the scan
  of \<^verbatim>\<open>log_leave\<close> never selects an entry whose \<^verbatim>\<open>leave_time\<close> is set, and the read views
  do not touch the list. This holds from every list, reachable or not.
\<close>

theorem closed_entry_immutable:
  "i < length alog \<Longrightarrow> leave_time (alog ! i) \<noteq> None \<Longrightarrow>
   i < length (perform_all cs alog) \<and> perform_all cs alog ! i = alog ! i"
proof (induction cs arbitrary: alog)
  case Nil
  then show ?case by simp
next
  case (Cons c cs)
  from perform_keeps_closed[OF Cons.prems, of c]
  have s: "i < length (perform c alog)" "perform c alog ! i = alog ! i" by simp_all
  with Cons.prems(2) have "leave_time (perform c alog ! i) \<noteq> None" by simp
  from Cons.IH[OF s(1) this] s(2) show ?case by simp
qed

theorem closed_entry_immutable_witness:
  "perform_all
      [Leave ''M1'' ''U1'' ''2024-01-01T10:00:00Z'',
       Join ''t2'' ''M1'' ''U1'' ''Alice'' ''2024-01-01T10:05:00Z'',
       Leave ''M1'' ''U1'' ''2024-01-01T10:15:00Z'']
      [\<lparr>event = ''left'', meeting_id = ''M1'', user_id = ''U1'', user_name = ''Alice'',
        join_time = ''2024-01-01T09:00:00Z'', leave_time = Some ''2024-01-01T09:45:00Z'',
        timestamp = ''t1''\<rparr>] ! 0
   = \<lparr>event = ''left'', meeting_id = ''M1'', user_id = ''U1'', user_name = ''Alice'',
        join_time = ''2024-01-01T09:00:00Z'', leave_time = Some ''2024-01-01T09:45:00Z'',
        timestamp = ''t1''\<rparr>"
  (is "perform_all ?cs ?A ! 0 = _")
proof -
  have h1: "0 < length ?A" by simp
  have h2: "leave_time (?A ! 0) \<noteq> None" by simp
  from closed_entry_immutable[OF h1 h2, of ?cs] show ?thesis by simp
qed

text \<open>
  In every list built from the empty one by such calls, \<^verbatim>\<open>event\<close> is \<^verbatim>\<open>joined\<close> exactly
  when \<^verbatim>\<open>leave_time\<close> is \<^verbatim>\<open>None\<close>: there the test of \<^verbatim>\<open>log_leave\<close> selects the entries of
  the meeting and user that have no \<^verbatim>\<open>leave_time\<close>.
\<close>

lemma perform_event_state:
  assumes "\<forall>e\<in>set alog. (event e = ''joined'') = (leave_time e = None)"
  shows "\<forall>e\<in>set (perform c alog). (event e = ''joined'') = (leave_time e = None)"
proof (cases c)
  case (Join now mid uid uname jt)
  with assms show ?thesis by (simp add: log_join_def)
next
  case (Leave mid uid lt)
  from snd_log_leave_cases[of mid uid lt alog] show ?thesis
  proof
    assume "snd (log_leave mid uid lt alog) = alog"
    with Leave assms show ?thesis by simp
  next
    assume "\<exists>k<length alog. open_match mid uid (alog ! k)
         \<and> snd (log_leave mid uid lt alog) = alog[k := close_entry lt (alog ! k)]"
    then obtain k where k:
      "snd (log_leave mid uid lt alog) = alog[k := close_entry lt (alog ! k)]" by blast
    have "set (alog[k := close_entry lt (alog ! k)])
            \<subseteq> insert (close_entry lt (alog ! k)) (set alog)"
      by (rule set_update_subset_insert)
    moreover have "(event (close_entry lt (alog ! k)) = ''joined'')
                     = (leave_time (close_entry lt (alog ! k)) = None)"
      by (simp add: close_entry_def)
    ultimately show ?thesis using assms k Leave by auto
  qed
next
  case (Report mid)
  with assms show ?thesis by simp
next
  case (GetLogs mid)
  with assms show ?thesis by simp
qed

lemma perform_all_event_state:
  "\<forall>e\<in>set alog. (event e = ''joined'') = (leave_time e = None) \<Longrightarrow>
   \<forall>e\<in>set (perform_all cs alog). (event e = ''joined'') = (leave_time e = None)"
proof (induction cs arbitrary: alog)
  case Nil
  then show ?case by simp
next
  case (Cons c cs)
  from Cons.IH[OF perform_event_state[OF Cons.prems]] show ?case by simp
qed

lemma reachable_open_match:
  "e \<in> set (perform_all cs []) \<Longrightarrow>
   open_match mid uid e \<longleftrightarrow> meeting_id e = mid \<and> user_id e = uid \<and> leave_time e = None"
  using perform_all_event_state[of "[]" cs] by (auto simp: open_match_def)

section \<open>Properties of \<^verbatim>\<open>clear_logs\<close>\<close>

lemma digits_acc_append:
  "digits_acc a (xs @ ys) = (case digits_acc a xs of None \<Rightarrow> None | Some b \<Rightarrow> digits_acc b ys)"
  by (induction xs arbitrary: a) (auto split: option.splits)

lemma digit_val_digit_char: "d < 10 \<Longrightarrow> digit_val (digit_char d) = Some (int d)"
proof -
  assume "d < 10"
  then have "d \<in> {0,1,2,3,4,5,6,7,8,9}" by auto
  then show ?thesis by (auto simp: digit_val_def digit_char_def)
qed

lemma digits_acc_str_nat: "digits_acc 0 (str_nat n) = Some (int n)"
proof (induction n rule: str_nat.induct)
  case (1 n)
  show ?case
  proof (cases "n < 10")
    case True
    then show ?thesis by (simp add: digit_val_digit_char)
  next
    case False
    have "digits_acc 0 (str_nat n) = digits_acc 0 (str_nat (n div 10) @ [digit_char (n mod 10)])"
      using False by (subst str_nat.simps) simp
    also have "\<dots> = digits_acc (int (n div 10)) [digit_char (n mod 10)]"
      using "1.IH"[OF False] by (simp add: digits_acc_append)
    also have "\<dots> = Some (10 * int (n div 10) + int (n mod 10))"
      by (simp add: digit_val_digit_char)
    also have "10 * int (n div 10) + int (n mod 10) = int n"
      by (metis of_nat_add of_nat_mult of_nat_numeral mult_div_mod_eq)
    finally show ?thesis .
  qed
qed

text \<open>
  Claim C2 as it is worded says that \<^verbatim>\<open>clear_logs\<close> returns the number of entries as an
  integer. On a list of one entry the returned value is a dictionary, not the integer
  1; the only integer in it is \<^verbatim>\<open>remaining\<close>, which is 0.
\<close>

theorem clear_logs_integer_counterexample:
  "fst (clear_logs [\<lparr>event = ''joined'', meeting_id = ''M1'', user_id = ''U1'',
                     user_name = ''Alice'', join_time = ''2024-01-01T09:00:00Z'',
                     leave_time = None, timestamp = ''t1''\<rparr>])
     = PyDict [(''message'', PyStr ''Cleared 1 log entries''), (''remaining'', PyInt 0)]
   \<and> fst (clear_logs [\<lparr>event = ''joined'', meeting_id = ''M1'', user_id = ''U1'',
                     user_name = ''Alice'', join_time = ''2024-01-01T09:00:00Z'',
                     leave_time = None, timestamp = ''t1''\<rparr>])
     \<noteq> PyInt (int (length [\<lparr>event = ''joined'', meeting_id = ''M1'', user_id = ''U1'',
                     user_name = ''Alice'', join_time = ''2024-01-01T09:00:00Z'',
                     leave_time = None, timestamp = ''t1''\<rparr>]))"
  by (simp add: clear_logs_def digit_char_def)

text \<open>
  Claim C2, amended. \<^verbatim>\<open>clear_logs\<close> returns a dictionary whose \<^verbatim>\<open>message\<close> is
  \<^verbatim>\<open>Cleared N log entries\<close>, with \<^verbatim>\<open>N\<close> the decimal numeral of the number of entries the
  list held before the call (read back as a number it is that length), and whose
  \<^verbatim>\<open>remaining\<close> is 0; afterwards the list is empty, so \<^verbatim>\<open>get_logs\<close> without a meeting
  returns no entries and the count 0.
\<close>

theorem clear_logs_resets:
  "clear_logs alog =
     (PyDict [(''message'', PyStr (''Cleared '' @ str_nat (length alog) @ '' log entries'')),
              (''remaining'', PyInt 0)], [])
   \<and> digits_acc 0 (str_nat (length alog)) = Some (int (length alog))
   \<and> get_logs None (snd (clear_logs alog)) = AllLogs [] 0"
  by (simp add: clear_logs_def get_logs_def digits_acc_str_nat del: str_nat.simps)

section \<open>Properties of \<^verbatim>\<open>calculate_duration\<close>\<close>







text \<open>
  The two readings of the normalisation agree on every string whose only \<^verbatim>\<open>Z\<close>, if
  any, is its last character.
\<close>

lemma replace_Z_trailing:
  "CHR ''Z'' \<notin> set (butlast s) \<Longrightarrow> replace_Z s = normalize_trailing_Z s"
proof (induction s rule: rev_induct)
  case Nil
  then show ?case by (simp add: replace_Z_def normalize_trailing_Z_def)
next
  case (snoc x xs)
  then have "CHR ''Z'' \<notin> set xs" by simp
  then have "concat (map (\<lambda>c. if c = CHR ''Z'' then ''+00:00'' else [c]) xs) = xs"
    by (induction xs) auto
  then show ?case by (simp add: replace_Z_def normalize_trailing_Z_def)
qed

text \<open>
  Claim C9 says that two well-formed timestamps always give the elapsed minutes. With
  one timestamp that carries no offset and one that ends in \<^verbatim>\<open>Z\<close>, both parse, the
  subtraction raises \<^verbatim>\<open>TypeError\<close>, and the \<^verbatim>\<open>except\<close> clause does not catch it: the
  function returns no number.
\<close>

theorem mixed_awareness_raises:
  "calculate_duration ''2024-01-01T10:00:00'' ''2024-01-01T10:30:00Z'' = Inl TypeError"
  by code_simp

text \<open>The examples of the specification: half an hour, and the same pair inverted.\<close>

lemma calculate_duration_half_hour:
  "calculate_duration ''2024-01-01T10:00:00Z'' ''2024-01-01T10:30:00Z'' = Inr 30"
  by code_simp

lemma calculate_duration_inverted:
  "calculate_duration ''2024-01-01T10:30:00Z'' ''2024-01-01T10:00:00Z'' = Inr (- 30)"
  by code_simp

section \<open>Properties of the aggregation\<close>

lemma calculate_durations_loop_skip:
  "\<forall>e\<in>set es. \<not> completed mid e \<Longrightarrow> calculate_durations_loop mid es d = Inr d"
  by (induction es) auto

text \<open>
  Claim C5. When no entry of a meeting has a \<^verbatim>\<open>leave_time\<close>, the report of that meeting
  has an empty \<^verbatim>\<open>attendance\<close> dictionary and \<^verbatim>\<open>total_participants\<close> 0: open sessions
  contribute nothing.
\<close>

theorem open_sessions_excluded:
  assumes "\<forall>e\<in>set alog. meeting_id e = mid \<longrightarrow> leave_time e = None"
  shows "report mid alog = Inr \<lparr>r_meeting_id = mid, attendance = [], total_participants = 0\<rparr>"
proof -
  from assms have "\<forall>e\<in>set alog. \<not> completed mid e"
    by (auto simp: completed_def)
  then have "calculate_durations mid alog = Inr []"
    by (simp add: calculate_durations_def calculate_durations_loop_skip)
  then show ?thesis by (simp add: report_def)
qed

theorem open_sessions_excluded_witness:
  "report ''M1''
     [\<lparr>event = ''joined'', meeting_id = ''M1'', user_id = ''U1'', user_name = ''Alice'',
       join_time = ''2024-01-01T09:00:00Z'', leave_time = None, timestamp = ''t1''\<rparr>,
      \<lparr>event = ''left'', meeting_id = ''M2'', user_id = ''U1'', user_name = ''Alice'',
       join_time = ''2024-01-01T11:00:00Z'', leave_time = Some ''2024-01-01T11:30:00Z'',
       timestamp = ''t2''\<rparr>]
   = Inr \<lparr>r_meeting_id = ''M1'', attendance = [], total_participants = 0\<rparr>"
  (is "report _ ?A = _")
proof -
  have h: "\<forall>e\<in>set ?A. meeting_id e = ''M1'' \<longrightarrow> leave_time e = None" by simp
  from open_sessions_excluded[OF h] show ?thesis .
qed





end
